theory Spec2Isabelle
  imports Main "HOL-Library.Word"
begin

section \<open>Python values\<close>

text \<open>
  A Python \<^verbatim>\<open>str\<close> is a sequence of Unicode code points, and slicing counts code
  points, so a string is a list of code points here. \<open>str\<close> reads an ASCII literal.
\<close>

type_synonym pystr = "nat list"

definition str :: "string \<Rightarrow> pystr" where
  "str cs = map of_char cs"

text \<open>
  What \<^verbatim>\<open>json.loads\<close> can return: \<^verbatim>\<open>None\<close>, a bool, an int, a float (its 64 bits),
  a str, a list, or a dict with str keys. \<open>PDict kvs\<close> is the dict whose items are
  \<open>kvs\<close>; a key is looked up with \<open>map_of\<close>.
\<close>

datatype pyval =
    PNone
  | PBool bool
  | PInt int
  | PFloat "64 word"
  | PStr pystr
  | PList "pyval list"
  | PDict "(pystr \<times> pyval) list"

datatype py_error =
    JSONDecodeError
  | RecursionError
  | AttributeError
  | TypeError
  | InvalidUpdateError
  | GraphRecursionError

text \<open>
  \<^verbatim>\<open>parsed.get(key, default)\<close>. Only a dict has the method; on every other value the
  attribute lookup raises \<^verbatim>\<open>AttributeError\<close>. A key that is present with the value
  \<^verbatim>\<open>None\<close> yields \<^verbatim>\<open>None\<close>, not the default.
\<close>

definition py_get :: "pyval \<Rightarrow> pystr \<Rightarrow> pyval \<Rightarrow> py_error + pyval" where
  "py_get v key dflt =
     (case v of
        PDict kvs \<Rightarrow> Inr (case map_of kvs key of None \<Rightarrow> dflt | Some x \<Rightarrow> x)
      | _ \<Rightarrow> Inl AttributeError)"

text \<open>\<^verbatim>\<open>v + suffix\<close> for a str \<^verbatim>\<open>suffix\<close>: concatenation when \<^verbatim>\<open>v\<close> is a str,
  \<^verbatim>\<open>TypeError\<close> for every other value.\<close>

definition py_add_str :: "pyval \<Rightarrow> pystr \<Rightarrow> py_error + pystr" where
  "py_add_str v suffix = (case v of PStr r \<Rightarrow> Inr (r @ suffix) | _ \<Rightarrow> Inl TypeError)"

section \<open>The workflow state\<close>

text \<open>
  \<^verbatim>\<open>class CardState(TypedDict, total=False)\<close>: every key may be absent. The keys that
  only the tools, the step counter and the caller write have their declared types; the
  keys that the classifier and the planner fill from the model's JSON hold whatever
  value the JSON had. A node's return value (a partial update) has the same shape.
\<close>

record CardState =
  user_input :: "pystr option"
  messages :: "(pystr \<times> pystr) list list option"
  intent :: "pyval option"
  intent_reason :: "pyval option"
  validated :: "bool option"
  validation_reason :: "pystr option"
  result :: "pystr option"
  assistant_message :: "pyval option"
  next_action :: "pyval option"
  plan_reason :: "pyval option"
  step_count :: "int option"

text \<open>The empty dict \<^verbatim>\<open>{}\<close>.\<close>

definition no_update :: CardState where
  "no_update =
     \<lparr>user_input = None, messages = None, intent = None, intent_reason = None,
      validated = None, validation_reason = None, result = None,
      assistant_message = None, next_action = None, plan_reason = None,
      step_count = None\<rparr>"

text \<open>The keys a dict holds, for the check that two nodes of one superstep do not
  write the same key.\<close>

definition keys :: "CardState \<Rightarrow> string list" where
  "keys u =
     (if user_input u = None then [] else [''user_input'']) @
     (if messages u = None then [] else [''messages'']) @
     (if intent u = None then [] else [''intent'']) @
     (if intent_reason u = None then [] else [''intent_reason'']) @
     (if validated u = None then [] else [''validated'']) @
     (if validation_reason u = None then [] else [''validation_reason'']) @
     (if result u = None then [] else [''result'']) @
     (if assistant_message u = None then [] else [''assistant_message'']) @
     (if next_action u = None then [] else [''next_action'']) @
     (if plan_reason u = None then [] else [''plan_reason'']) @
     (if step_count u = None then [] else [''step_count''])"

text \<open>
  The state graph keeps one last-value channel per key: a node's update overwrites the
  keys it holds and leaves the others.
\<close>

definition override :: "'a option \<Rightarrow> 'a option \<Rightarrow> 'a option" where
  "override old new = (case new of None \<Rightarrow> old | Some v \<Rightarrow> Some v)"

definition merge :: "CardState \<Rightarrow> CardState \<Rightarrow> CardState" where
  "merge s u =
     \<lparr>user_input = override (user_input s) (user_input u),
      messages = override (messages s) (messages u),
      intent = override (intent s) (intent u),
      intent_reason = override (intent_reason s) (intent_reason u),
      validated = override (validated s) (validated u),
      validation_reason = override (validation_reason s) (validation_reason u),
      result = override (result s) (result u),
      assistant_message = override (assistant_message s) (assistant_message u),
      next_action = override (next_action s) (next_action u),
      plan_reason = override (plan_reason s) (plan_reason u),
      step_count = override (step_count s) (step_count u)\<rparr>"

section \<open>agents.py\<close>

text \<open>
  Both agents render their prompt with \<^verbatim>\<open>str.format\<close> and call \<^verbatim>\<open>llm.generate\<close>
  before the \<^verbatim>\<open>try\<close> block, so an exception of either leaves the agent uncaught. (The
  two templates hold their JSON example in literal braces, which \<^verbatim>\<open>str.format\<close> reads
  as a replacement field and answers with \<^verbatim>\<open>KeyError\<close>.) The properties proved here
  are about what is done with a text the gateway returned, and the model starts there:
  the argument \<open>loaded\<close> is the outcome of \<^verbatim>\<open>json.loads(text)\<close> on that text, the
  parsed value or the exception it raised.
\<close>

definition intent_agent_try :: "py_error + pyval \<Rightarrow> py_error + CardState" where
  "intent_agent_try loaded =
     (case loaded of
        Inl e \<Rightarrow> Inl e
      | Inr parsed \<Rightarrow>
          (case py_get parsed (str ''intent'') (PStr (str ''unknown'')) of
             Inl e \<Rightarrow> Inl e
           | Inr i \<Rightarrow>
               (case py_get parsed (str ''reason'') (PStr (str '''')) of
                  Inl e \<Rightarrow> Inl e
                | Inr r \<Rightarrow> Inr (no_update\<lparr>intent := Some i, intent_reason := Some r\<rparr>))))"

text \<open>The dict of the \<^verbatim>\<open>except Exception\<close> branch.\<close>

definition intent_fallback :: CardState where
  "intent_fallback =
     no_update\<lparr>intent := Some (PStr (str ''unknown'')),
               intent_reason := Some (PStr (str ''parse_error''))\<rparr>"

definition intent_agent :: "py_error + pyval \<Rightarrow> CardState" where
  "intent_agent loaded =
     (case intent_agent_try loaded of
        Inr u \<Rightarrow> u
      | Inl e \<Rightarrow> intent_fallback)"

definition planner_agent_try :: "CardState \<Rightarrow> py_error + pyval \<Rightarrow> py_error + CardState" where
  "planner_agent_try state loaded =
     (case loaded of
        Inl e \<Rightarrow> Inl e
      | Inr plan \<Rightarrow>
          (case py_get plan (str ''next_action'') (PStr (str ''finish'')) of
             Inl e \<Rightarrow> Inl e
           | Inr na \<Rightarrow>
          (case py_get plan (str ''assistant_message'') (PStr (str '''')) of
             Inl e \<Rightarrow> Inl e
           | Inr am \<Rightarrow>
          (case py_get plan (str ''intent'')
                  (case intent state of None \<Rightarrow> PStr (str ''unknown'') | Some v \<Rightarrow> v) of
             Inl e \<Rightarrow> Inl e
           | Inr i \<Rightarrow>
          (case py_get plan (str ''reason'') (PStr (str '''')) of
             Inl e \<Rightarrow> Inl e
           | Inr r \<Rightarrow>
               Inr (no_update\<lparr>next_action := Some na, assistant_message := Some am,
                              intent := Some i, plan_reason := Some r\<rparr>))))))"

text \<open>The dict of the planner's \<^verbatim>\<open>except Exception\<close> branch; it has no
  \<^verbatim>\<open>intent\<close> key.\<close>

definition planner_fallback :: CardState where
  "planner_fallback =
     no_update\<lparr>next_action := Some (PStr (str ''finish'')),
               assistant_message := Some (PStr (str ''I'm sorry, I couldn't process that.'')),
               plan_reason := Some (PStr (str ''parse_error''))\<rparr>"

definition planner_agent :: "CardState \<Rightarrow> py_error + pyval \<Rightarrow> CardState" where
  "planner_agent state loaded =
     (case planner_agent_try state loaded of
        Inr u \<Rightarrow> u
      | Inl e \<Rightarrow> planner_fallback)"

section \<open>tools.py\<close>

definition validate_ownership_tool :: "CardState \<Rightarrow> CardState" where
  "validate_ownership_tool state =
     no_update\<lparr>validated := Some True,
               validation_reason := Some (str ''Mock validation passed.'')\<rparr>"

text \<open>The two confirmation texts start with characters outside ASCII, given here by
  their code points as the source file has them.\<close>

definition replace_card_tool :: "CardState \<Rightarrow> CardState" where
  "replace_card_tool state =
     no_update\<lparr>result := Some ([226, 339, 8230] @
        str '' Replacement completed. A new card will arrive in 5'' @ [226, 8364, 8220] @
        str ''7 business days.'')\<rparr>"

definition cancel_card_tool :: "CardState \<Rightarrow> CardState" where
  "cancel_card_tool state =
     no_update\<lparr>result := Some ([240, 376, 8250, 8216] @
        str '' Cancellation completed. Your card is now inactive.'')\<rparr>"

section \<open>graph.py: the nodes\<close>

definition classify_node :: "CardState \<Rightarrow> py_error + pyval \<Rightarrow> CardState" where
  "classify_node state loaded = intent_agent loaded"

text \<open>\<^verbatim>\<open>state.get("validated", False)\<close>.\<close>

definition is_validated :: "CardState \<Rightarrow> bool" where
  "is_validated state = (case validated state of None \<Rightarrow> False | Some b \<Rightarrow> b)"

text \<open>\<^verbatim>\<open>x in ("replace", "cancel")\<close> for the value \<^verbatim>\<open>x\<close> of \<^verbatim>\<open>out.get("next_action")\<close>;
  a missing key gives \<^verbatim>\<open>None\<close>, which is not in the tuple.\<close>

definition is_destructive :: "pyval option \<Rightarrow> bool" where
  "is_destructive x =
     (x = Some (PStr (str ''replace'')) \<or> x = Some (PStr (str ''cancel'')))"

definition annotation :: pystr where
  "annotation = str '' | Guarded: validating before action''"

text \<open>
  The planner node with its guard. The concatenation stands outside every \<^verbatim>\<open>try\<close>:
  when the model's \<^verbatim>\<open>reason\<close> is not a string it raises \<^verbatim>\<open>TypeError\<close> and the node
  returns nothing.
\<close>

definition planner_node :: "CardState \<Rightarrow> py_error + pyval \<Rightarrow> py_error + CardState" where
  "planner_node state loaded =
     (let out = planner_agent state loaded in
      if is_destructive (next_action out) \<and> \<not> is_validated state
      then
        (case py_add_str (case plan_reason out of None \<Rightarrow> PStr (str '''') | Some v \<Rightarrow> v)
                annotation of
           Inl e \<Rightarrow> Inl e
         | Inr r \<Rightarrow>
             Inr (out\<lparr>next_action := Some (PStr (str ''validate'')),
                      plan_reason := Some (PStr (take 500 r))\<rparr>))
      else Inr out)"

definition tool_node :: "CardState \<Rightarrow> CardState" where
  "tool_node state =
     (let action = (case next_action state of None \<Rightarrow> PStr (str ''finish'') | Some a \<Rightarrow> a) in
      if action = PStr (str ''validate'') then validate_ownership_tool state
      else if action = PStr (str ''replace'') then replace_card_tool state
      else if action = PStr (str ''cancel'') then cancel_card_tool state
      else no_update)"

text \<open>Which of the three operations \<open>tool_node\<close> calls on a state, if any.\<close>

datatype tool = ValidateOwnership | ReplaceCard | CancelCard

definition tool_node_call :: "CardState \<Rightarrow> tool option" where
  "tool_node_call state =
     (let action = (case next_action state of None \<Rightarrow> PStr (str ''finish'') | Some a \<Rightarrow> a) in
      if action = PStr (str ''validate'') then Some ValidateOwnership
      else if action = PStr (str ''replace'') then Some ReplaceCard
      else if action = PStr (str ''cancel'') then Some CancelCard
      else None)"

fun run_tool :: "tool \<Rightarrow> CardState \<Rightarrow> CardState" where
  "run_tool ValidateOwnership state = validate_ownership_tool state"
| "run_tool ReplaceCard state = replace_card_tool state"
| "run_tool CancelCard state = cancel_card_tool state"

definition step_node :: "CardState \<Rightarrow> CardState" where
  "step_node state =
     (let n = (case step_count state of None \<Rightarrow> 0 | Some k \<Rightarrow> k) + 1 in
      no_update\<lparr>step_count := Some n\<rparr>)"

section \<open>graph.py: the wiring\<close>

datatype node = Classify | Planner | Tool | Step

datatype target = Goto node | END

definition route_after_planner :: "CardState \<Rightarrow> target" where
  "route_after_planner state =
     (if next_action state = Some (PStr (str ''finish'')) then END else Goto Tool)"

text \<open>\<^verbatim>\<open>if state.get("result")\<close>: a missing key and the empty string are both false.\<close>

definition route_after_tool :: "int \<Rightarrow> CardState \<Rightarrow> target" where
  "route_after_tool max_steps state =
     (if (case result state of None \<Rightarrow> False | Some r \<Rightarrow> r \<noteq> []) then END
      else if (case step_count state of None \<Rightarrow> 0 | Some k \<Rightarrow> k) \<ge> max_steps then END
      else Goto Planner)"

text \<open>
  What \<^verbatim>\<open>build_graph\<close> hands to the graph library: the function of each node, the
  entry point, the edges of \<^verbatim>\<open>add_edge\<close> and the routers of
  \<^verbatim>\<open>add_conditional_edges\<close>, in the order of the calls. The second argument of a
  node function is the parsed reply of the gateway to the call that node makes.
\<close>

record graph =
  node_fn :: "node \<Rightarrow> CardState \<Rightarrow> py_error + pyval \<Rightarrow> py_error + CardState"
  entry_point :: node
  edges :: "(node \<times> node) list"
  conditional_edges :: "(node \<times> (CardState \<Rightarrow> target)) list"

definition build_graph :: "int \<Rightarrow> graph" where
  "build_graph max_steps =
     \<lparr>node_fn = (\<lambda>n state loaded.
         case n of
           Classify \<Rightarrow> Inr (classify_node state loaded)
         | Planner \<Rightarrow> planner_node state loaded
         | Tool \<Rightarrow> Inr (tool_node state)
         | Step \<Rightarrow> Inr (step_node state)),
      entry_point = Classify,
      edges = [(Classify, Planner), (Tool, Step), (Step, Planner)],
      conditional_edges =
        [(Planner, route_after_planner), (Tool, route_after_tool max_steps)]\<rparr>"

section \<open>The graph library's execution of a compiled state graph\<close>

text \<open>
  A compiled graph runs in supersteps. The nodes that are active in a superstep all read
  the state as it was when the superstep began; their updates are merged into it
  afterwards, and two updates of one superstep that hold the same key are an
  \<^verbatim>\<open>InvalidUpdateError\<close>. A node that ran activates, for the next superstep, the target
  of each of its edges and the node its router names, if it has one; the router reads
  the state with the update of its own node applied. \<open>END\<close> activates nothing. An
  exception in a node ends the run with that exception.
\<close>

definition fired :: "graph \<Rightarrow> node \<Rightarrow> CardState \<Rightarrow> node list" where
  "fired g n s =
     map snd (filter (\<lambda>e. fst e = n) (edges g)) @
     concat (map (\<lambda>b. case snd b s of Goto m \<Rightarrow> [m] | END \<Rightarrow> [])
                 (filter (\<lambda>b. fst b = n) (conditional_edges g)))"

fun run_tasks :: "(node \<Rightarrow> py_error + CardState) \<Rightarrow> node list \<Rightarrow>
    py_error + (node \<times> CardState) list" where
  "run_tasks f [] = Inr []"
| "run_tasks f (n # ns) =
     (case f n of
        Inl e \<Rightarrow> Inl e
      | Inr u \<Rightarrow>
          (case run_tasks f ns of
             Inl e \<Rightarrow> Inl e
           | Inr ws \<Rightarrow> Inr ((n, u) # ws)))"

type_synonym config = "CardState \<times> node list"

definition superstep :: "graph \<Rightarrow> (node \<Rightarrow> py_error + pyval) \<Rightarrow> config \<Rightarrow> py_error + config" where
  "superstep g reply c =
     (case run_tasks (\<lambda>n. node_fn g n (fst c) (reply n)) (snd c) of
        Inl e \<Rightarrow> Inl e
      | Inr ws \<Rightarrow>
          if \<not> distinct (concat (map (\<lambda>w. keys (snd w)) ws)) then Inl InvalidUpdateError
          else
            let triggered = concat (map (\<lambda>w. fired g (fst w) (merge (fst c) (snd w))) ws)
            in Inr (foldl merge (fst c) (map snd ws),
                    filter (\<lambda>n. n \<in> set triggered) [Classify, Planner, Tool, Step]))"

text \<open>
  The configuration after \<open>k\<close> supersteps, from the input state with the entry point
  active. \<open>llm i n\<close> is the parsed reply the gateway gives to node \<open>n\<close> in superstep \<open>i\<close>.
\<close>

fun trace :: "graph \<Rightarrow> (nat \<Rightarrow> node \<Rightarrow> py_error + pyval) \<Rightarrow> CardState \<Rightarrow> nat \<Rightarrow>
    py_error + config" where
  "trace g llm s0 0 = Inr (s0, [entry_point g])"
| "trace g llm s0 (Suc k) =
     (case trace g llm s0 k of
        Inl e \<Rightarrow> Inl e
      | Inr c \<Rightarrow> superstep g (llm k) c)"



section \<open>Predicates used to state the properties\<close>

text \<open>\<^verbatim>\<open>isinstance(v, dict)\<close>.\<close>

definition is_dict :: "pyval \<Rightarrow> bool" where
  "is_dict v = (case v of PDict kvs \<Rightarrow> True | _ \<Rightarrow> False)"

text \<open>\<^verbatim>\<open>state.get("intent", "unknown")\<close>, the way \<^verbatim>\<open>planner_agent\<close> reads the intent.\<close>

definition get_intent :: "CardState \<Rightarrow> pyval" where
  "get_intent state = (case intent state of None \<Rightarrow> PStr (str ''unknown'') | Some v \<Rightarrow> v)"

text \<open>The reply gives the planner no \<^verbatim>\<open>intent\<close>: \<^verbatim>\<open>json.loads\<close> raised, or the value is
  not a dict, or the dict has no such key.\<close>

definition omits_intent :: "py_error + pyval \<Rightarrow> bool" where
  "omits_intent loaded =
     (case loaded of
        Inl e \<Rightarrow> True
      | Inr (PDict kvs) \<Rightarrow> map_of kvs (str ''intent'') = None
      | Inr _ \<Rightarrow> True)"

text \<open>A state whose \<^verbatim>\<open>next_action\<close> is destructive only when it is validated, and an
  update that keeps such states so when it was computed from \<open>s\<close>.\<close>

definition safe :: "CardState \<Rightarrow> bool" where
  "safe s = (is_destructive (next_action s) \<longrightarrow> is_validated s)"

definition upd_ok :: "CardState \<Rightarrow> CardState \<Rightarrow> bool" where
  "upd_ok s u =
     (validated u \<noteq> Some False \<and> (is_destructive (next_action u) \<longrightarrow> is_validated s))"

section \<open>Concrete runs\<close>

text \<open>Two inputs of \<^verbatim>\<open>graph.invoke\<close>, as the application builds them: only
  \<^verbatim>\<open>user_input\<close> is set.\<close>

definition hello :: CardState where
  "hello = no_update\<lparr>user_input := Some (str ''hello'')\<rparr>"

definition cancel_request :: CardState where
  "cancel_request = no_update\<lparr>user_input := Some (str ''please cancel my card ending 4321'')\<rparr>"

text \<open>A model that answers every call with \<^verbatim>\<open>{"next_action": "validate"}\<close>.\<close>

definition llm_validate :: "nat \<Rightarrow> node \<Rightarrow> py_error + pyval" where
  "llm_validate i n = Inr (PDict [(str ''next_action'', PStr (str ''validate''))])"


text \<open>A model that classifies the request as a cancellation and plans \<^verbatim>\<open>cancel\<close> at
  every call.\<close>

definition llm_cancel :: "nat \<Rightarrow> node \<Rightarrow> py_error + pyval" where
  "llm_cancel i n =
     (case n of
        Classify \<Rightarrow> Inr (PDict [(str ''intent'', PStr (str ''cancel'')),
                                (str ''reason'', PStr (str ''asked to cancel''))])
      | _ \<Rightarrow> Inr (PDict [(str ''next_action'', PStr (str ''cancel''))]))"


section \<open>Basic facts\<close>

lemma action_names_distinct:
  "str ''validate'' \<noteq> str ''replace''" "str ''validate'' \<noteq> str ''cancel''"
  "str ''validate'' \<noteq> str ''finish''" "str ''replace'' \<noteq> str ''cancel''"
  "str ''replace'' \<noteq> str ''finish''" "str ''cancel'' \<noteq> str ''finish''"
  "str ''replace'' \<noteq> str ''validate''" "str ''cancel'' \<noteq> str ''validate''"
  "str ''finish'' \<noteq> str ''validate''" "str ''cancel'' \<noteq> str ''replace''"
  "str ''finish'' \<noteq> str ''replace''" "str ''finish'' \<noteq> str ''cancel''"
  by (simp_all add: str_def)

lemma py_get_dict:
  "py_get (PDict kvs) key d = Inr (case map_of kvs key of None \<Rightarrow> d | Some x \<Rightarrow> x)"
  by (simp add: py_get_def)

lemma py_get_not_dict: "\<not> is_dict v \<Longrightarrow> py_get v key d = Inl AttributeError"
  by (cases v) (simp_all add: py_get_def is_dict_def)

lemma planner_agent_dict:
  "planner_agent state (Inr (PDict kvs)) =
     no_update\<lparr>next_action := Some (case map_of kvs (str ''next_action'') of
                                      None \<Rightarrow> PStr (str ''finish'') | Some x \<Rightarrow> x),
       assistant_message := Some (case map_of kvs (str ''assistant_message'') of
                                    None \<Rightarrow> PStr (str '''') | Some x \<Rightarrow> x),
       intent := Some (case map_of kvs (str ''intent'') of
                         None \<Rightarrow> (case intent state of None \<Rightarrow> PStr (str ''unknown'') | Some v \<Rightarrow> v)
                       | Some x \<Rightarrow> x),
       plan_reason := Some (case map_of kvs (str ''reason'') of
                              None \<Rightarrow> PStr (str '''') | Some x \<Rightarrow> x)\<rparr>"
  by (simp add: planner_agent_def planner_agent_try_def py_get_dict)

lemma planner_agent_raised: "planner_agent state (Inl e) = planner_fallback"
  by (simp add: planner_agent_def planner_agent_try_def)

lemma planner_agent_not_dict: "\<not> is_dict v \<Longrightarrow> planner_agent state (Inr v) = planner_fallback"
  by (simp add: planner_agent_def planner_agent_try_def py_get_not_dict)

lemma planner_agent_cases:
  obtains (fallback) "planner_agent state loaded = planner_fallback"
  | (dict) kvs where "loaded = Inr (PDict kvs)"
proof (cases loaded)
  case (Inl e)
  then show ?thesis using fallback planner_agent_raised by simp
next
  case (Inr v)
  show ?thesis
  proof (cases "is_dict v")
    case True
    then obtain kvs where "v = PDict kvs" by (cases v) (simp_all add: is_dict_def)
    with Inr show ?thesis using dict by simp
  next
    case False
    with Inr show ?thesis using fallback planner_agent_not_dict by simp
  qed
qed

lemma planner_agent_frame:
  "validated (planner_agent state loaded) = None"
  "result (planner_agent state loaded) = None"
  "step_count (planner_agent state loaded) = None"
  "validation_reason (planner_agent state loaded) = None"
  "user_input (planner_agent state loaded) = None"
  "messages (planner_agent state loaded) = None"
  "intent_reason (planner_agent state loaded) = None"
  by (cases state loaded rule: planner_agent_cases;
      simp add: planner_agent_dict planner_fallback_def no_update_def)+

lemma planner_agent_sets:
  "next_action (planner_agent state loaded) \<noteq> None"
  "plan_reason (planner_agent state loaded) \<noteq> None"
  "assistant_message (planner_agent state loaded) \<noteq> None"
  by (cases state loaded rule: planner_agent_cases;
      simp add: planner_agent_dict planner_fallback_def no_update_def)+

lemma planner_node_cases:
  obtains (passed) "planner_node state loaded = Inr (planner_agent state loaded)"
      "\<not> (is_destructive (next_action (planner_agent state loaded)) \<and> \<not> is_validated state)"
  | (rewritten) r where
      "is_destructive (next_action (planner_agent state loaded))"
      "\<not> is_validated state"
      "plan_reason (planner_agent state loaded) = Some (PStr r)"
      "planner_node state loaded =
         Inr ((planner_agent state loaded)\<lparr>next_action := Some (PStr (str ''validate'')),
              plan_reason := Some (PStr (take 500 (r @ annotation)))\<rparr>)"
  | (raised)
      "is_destructive (next_action (planner_agent state loaded))"
      "\<not> is_validated state"
      "planner_node state loaded = Inl TypeError"
proof (cases "is_destructive (next_action (planner_agent state loaded)) \<and> \<not> is_validated state")
  case False
  then have "planner_node state loaded = Inr (planner_agent state loaded)"
    by (auto simp: planner_node_def Let_def)
  with False show ?thesis using passed by blast
next
  case True
  obtain v where v: "plan_reason (planner_agent state loaded) = Some v"
    using planner_agent_sets(2) [of state loaded] by blast
  show ?thesis
  proof (cases "\<exists>r. v = PStr r")
    case True
    then obtain r where r: "v = PStr r" by blast
    have "planner_node state loaded =
         Inr ((planner_agent state loaded)\<lparr>next_action := Some (PStr (str ''validate'')),
              plan_reason := Some (PStr (take 500 (r @ annotation)))\<rparr>)"
      using \<open>is_destructive _ \<and> _\<close> v r by (simp add: planner_node_def Let_def py_add_str_def)
    then show ?thesis using rewritten \<open>is_destructive _ \<and> _\<close> v r by blast
  next
    case False
    then have "py_add_str v annotation = Inl TypeError"
      by (cases v) (simp_all add: py_add_str_def)
    then have "planner_node state loaded = Inl TypeError"
      using \<open>is_destructive _ \<and> _\<close> v by (simp add: planner_node_def Let_def)
    then show ?thesis using raised \<open>is_destructive _ \<and> _\<close> by blast
  qed
qed

lemma not_destructive_validate: "\<not> is_destructive (Some (PStr (str ''validate'')))"
  by (simp add: is_destructive_def action_names_distinct)

lemma planner_node_guard:
  assumes "planner_node state loaded = Inr out" "\<not> is_validated state"
  shows "\<not> is_destructive (next_action out)"
  using assms
  by (cases rule: planner_node_cases [where state = state and loaded = loaded]) (auto simp: not_destructive_validate)

lemma planner_node_shape:
  assumes "planner_node state loaded = Inr out"
  shows "\<exists>na pr. out = (planner_agent state loaded)\<lparr>next_action := Some na, plan_reason := Some pr\<rparr>"
proof (cases rule: planner_node_cases [where state = state and loaded = loaded])
  case passed
  obtain na pr where "next_action (planner_agent state loaded) = Some na"
      "plan_reason (planner_agent state loaded) = Some pr"
    using planner_agent_sets(1,2) [of state loaded] by blast
  then have eq: "planner_agent state loaded =
      (planner_agent state loaded)\<lparr>next_action := Some na, plan_reason := Some pr\<rparr>"
    by simp
  from passed(1) assms have "out = planner_agent state loaded" by simp
  with eq have "out = (planner_agent state loaded)\<lparr>next_action := Some na, plan_reason := Some pr\<rparr>"
    by simp
  then show ?thesis by (intro exI)
next
  case (rewritten r)
  from rewritten(4) assms have "out = (planner_agent state loaded)
      \<lparr>next_action := Some (PStr (str ''validate'')),
       plan_reason := Some (PStr (take 500 (r @ annotation)))\<rparr>"
    by simp
  then show ?thesis by (intro exI)
next
  case raised
  with assms show ?thesis by simp
qed

lemma planner_node_frame:
  assumes "planner_node state loaded = Inr out"
  shows "validated out = None" "result out = None" "step_count out = None"
    "validation_reason out = None" "user_input out = None" "messages out = None"
    "intent_reason out = None" "intent out = intent (planner_agent state loaded)"
    "assistant_message out = assistant_message (planner_agent state loaded)"
    "next_action out \<noteq> None" "plan_reason out \<noteq> None"
proof -
  obtain na pr where
    out: "out = (planner_agent state loaded)\<lparr>next_action := Some na, plan_reason := Some pr\<rparr>"
    using planner_node_shape [OF assms] by blast
  show "validated out = None" "result out = None" "step_count out = None"
    "validation_reason out = None" "user_input out = None" "messages out = None"
    "intent_reason out = None" "intent out = intent (planner_agent state loaded)"
    "assistant_message out = assistant_message (planner_agent state loaded)"
    "next_action out \<noteq> None" "plan_reason out \<noteq> None"
    by (simp_all add: out planner_agent_frame)
qed

lemma intent_agent_raised: "intent_agent (Inl e) = intent_fallback"
  by (simp add: intent_agent_def intent_agent_try_def)

lemma intent_agent_not_dict: "\<not> is_dict v \<Longrightarrow> intent_agent (Inr v) = intent_fallback"
  by (simp add: intent_agent_def intent_agent_try_def py_get_not_dict)

lemma intent_agent_dict:
  "intent_agent (Inr (PDict kvs)) =
     no_update\<lparr>intent := Some (case map_of kvs (str ''intent'') of
                                 None \<Rightarrow> PStr (str ''unknown'') | Some x \<Rightarrow> x),
       intent_reason := Some (case map_of kvs (str ''reason'') of
                                None \<Rightarrow> PStr (str '''') | Some x \<Rightarrow> x)\<rparr>"
  by (simp add: intent_agent_def intent_agent_try_def py_get_dict)





lemma tool_node_call_run:
  "tool_node state = (case tool_node_call state of None \<Rightarrow> no_update | Some t \<Rightarrow> run_tool t state)"
  by (simp add: tool_node_def tool_node_call_def Let_def)

lemma tool_node_validate:
  "next_action state = Some (PStr (str ''validate'')) \<Longrightarrow>
   tool_node state = validate_ownership_tool state \<and> tool_node_call state = Some ValidateOwnership"
  by (simp add: tool_node_def tool_node_call_def)



lemma tool_node_other:
  assumes "next_action state \<noteq> Some (PStr (str ''validate''))"
    "next_action state \<noteq> Some (PStr (str ''replace''))"
    "next_action state \<noteq> Some (PStr (str ''cancel''))"
  shows "tool_node state = no_update \<and> tool_node_call state = None"
  using assms
  by (cases "next_action state") (simp_all add: tool_node_def tool_node_call_def action_names_distinct)

lemma tool_node_result:
  assumes "result (tool_node state) \<noteq> None"
  shows "is_destructive (next_action state)"
proof (rule ccontr)
  assume nd: "\<not> is_destructive (next_action state)"
  show False
  proof (cases "next_action state = Some (PStr (str ''validate''))")
    case True
    with assms show False
      by (simp add: tool_node_validate validate_ownership_tool_def no_update_def)
  next
    case False
    with nd have "tool_node state = no_update"
      using tool_node_other by (simp add: is_destructive_def)
    with assms show False by (simp add: no_update_def)
  qed
qed


lemma annotation_length: "length annotation = 36"
  by (simp add: annotation_def str_def)







lemma planner_agent_omits_intent:
  assumes "omits_intent loaded"
  shows "intent (planner_agent state loaded) = None \<or>
         intent (planner_agent state loaded) = Some (get_intent state)"
proof (cases rule: planner_agent_cases [where state = state and loaded = loaded])
  case fallback
  then show ?thesis by (simp add: planner_fallback_def no_update_def)
next
  case (dict kvs)
  with assms have "map_of kvs (str ''intent'') = None"
    by (simp add: omits_intent_def)
  with dict show ?thesis
    by (simp add: planner_agent_dict get_intent_def)
qed

text \<open>
  Claim C10. For every state and every reply that gives no \<^verbatim>\<open>intent\<close>, when the planning
  step returns, the intent read from the merged state is the intent read from the
  state before the step; and when the state held an \<^verbatim>\<open>intent\<close> key, the merged state
  holds the same value under it.
\<close>

theorem planner_keeps_intent:
  assumes "omits_intent loaded" and "planner_node state loaded = Inr out"
  shows "get_intent (merge state out) = get_intent state \<and>
         (intent state \<noteq> None \<longrightarrow> intent (merge state out) = intent state)"
proof -
  have "intent out = intent (planner_agent state loaded)"
    using planner_node_frame(8) [OF assms(2)] .
  with planner_agent_omits_intent [OF assms(1), of state]
  have "intent out = None \<or> intent out = Some (get_intent state)" by simp
  then show ?thesis
    by (auto simp: merge_def override_def get_intent_def split: option.splits)
qed

lemma node_fn_build_graph:
  "node_fn (build_graph mx) Classify s l = Inr (classify_node s l)"
  "node_fn (build_graph mx) Planner s l = planner_node s l"
  "node_fn (build_graph mx) Tool s l = Inr (tool_node s)"
  "node_fn (build_graph mx) Step s l = Inr (step_node s)"
  by (simp_all add: build_graph_def)

lemma fired_build_graph:
  "fired (build_graph mx) Classify x = [Planner]"
  "fired (build_graph mx) Planner x = (case route_after_planner x of Goto m \<Rightarrow> [m] | END \<Rightarrow> [])"
  "fired (build_graph mx) Tool x = Step # (case route_after_tool mx x of Goto m \<Rightarrow> [m] | END \<Rightarrow> [])"
  "fired (build_graph mx) Step x = [Planner]"
  by (simp_all add: fired_def build_graph_def)

lemma route_after_planner_target: "route_after_planner x = END \<or> route_after_planner x = Goto Tool"
  by (simp add: route_after_planner_def)

lemma route_after_tool_target: "route_after_tool mx x = END \<or> route_after_tool mx x = Goto Planner"
  by (simp add: route_after_tool_def)

lemma fired_Tool:
  assumes "Tool \<in> set (fired (build_graph mx) n x)"
  shows "n = Planner"
proof (cases n)
  case Tool
  with assms route_after_tool_target [of mx x] show ?thesis
    by (auto simp: fired_build_graph)
qed (use assms in \<open>simp_all add: fired_build_graph\<close>)

lemma fired_Step:
  assumes "Step \<in> set (fired (build_graph mx) n x)"
  shows "n = Tool"
proof (cases n)
  case Planner
  with assms route_after_planner_target [of x] show ?thesis
    by (auto simp: fired_build_graph)
qed (use assms in \<open>simp_all add: fired_build_graph\<close>)

lemma intent_agent_cases:
  obtains (fallback) "intent_agent l = intent_fallback"
  | (dict) kvs where "l = Inr (PDict kvs)"
proof (cases l)
  case (Inl e)
  then show ?thesis using fallback intent_agent_raised by simp
next
  case (Inr v)
  show ?thesis
  proof (cases "is_dict v")
    case True
    then obtain kvs where "v = PDict kvs" by (cases v) (simp_all add: is_dict_def)
    with Inr show ?thesis using dict by simp
  next
    case False
    with Inr show ?thesis using fallback intent_agent_not_dict by simp
  qed
qed

lemma classify_node_frame:
  "validated (classify_node s l) = None" "next_action (classify_node s l) = None"
  "result (classify_node s l) = None" "step_count (classify_node s l) = None"
  "intent (classify_node s l) \<noteq> None"
  by (cases rule: intent_agent_cases [where l = l];
      simp add: classify_node_def intent_agent_dict intent_fallback_def no_update_def)+

lemma tool_node_shape:
  "tool_node s = validate_ownership_tool s \<or> tool_node s = replace_card_tool s \<or>
   tool_node s = cancel_card_tool s \<or> tool_node s = no_update"
  by (simp add: tool_node_def Let_def)

lemma tool_node_frame:
  "validated (tool_node s) \<noteq> Some False" "next_action (tool_node s) = None"
  "step_count (tool_node s) = None" "intent (tool_node s) = None"
  using tool_node_shape [of s]
  by (auto simp: validate_ownership_tool_def replace_card_tool_def cancel_card_tool_def no_update_def)

lemma step_node_frame:
  "validated (step_node s) = None" "next_action (step_node s) = None"
  "result (step_node s) = None" "intent (step_node s) = None"
  "step_count (step_node s) = Some ((case step_count s of None \<Rightarrow> 0 | Some k \<Rightarrow> k) + 1)"
  by (simp_all add: step_node_def no_update_def)

lemma not_destructive_None: "\<not> is_destructive None"
  by (simp add: is_destructive_def)

lemma node_fn_upd_ok:
  assumes "node_fn (build_graph mx) n s l = Inr u"
  shows "upd_ok s u"
proof (cases n)
  case Classify
  with assms have "u = classify_node s l" by (simp add: node_fn_build_graph)
  then show ?thesis by (simp add: upd_ok_def classify_node_frame not_destructive_None)
next
  case Planner
  with assms have pn: "planner_node s l = Inr u" by (simp add: node_fn_build_graph)
  from planner_node_frame(1) [OF pn] planner_node_guard [OF pn]
  show ?thesis by (auto simp: upd_ok_def)
next
  case Tool
  with assms have "u = tool_node s" by (simp add: node_fn_build_graph)
  then show ?thesis by (simp add: upd_ok_def tool_node_frame not_destructive_None)
next
  case Step
  with assms have "u = step_node s" by (simp add: node_fn_build_graph)
  then show ?thesis by (simp add: upd_ok_def step_node_frame not_destructive_None)
qed

lemma run_tasks_Inr:
  assumes "run_tasks f ns = Inr ws"
  shows "map fst ws = ns \<and> (\<forall>w \<in> set ws. f (fst w) = Inr (snd w))"
  using assms
proof (induction ns arbitrary: ws)
  case Nil
  then show ?case by simp
next
  case (Cons n ns)
  then show ?case
    by (auto split: sum.splits)
qed

lemma is_validated_merge:
  "validated u \<noteq> Some False \<Longrightarrow> is_validated x \<Longrightarrow> is_validated (merge x u)"
  by (cases "validated u") (auto simp: merge_def override_def is_validated_def)

lemma validated_merge:
  "validated u \<noteq> Some False \<Longrightarrow> validated x = Some True \<Longrightarrow> validated (merge x u) = Some True"
  by (cases "validated u") (auto simp: merge_def override_def)

lemma next_action_merge:
  "next_action (merge x u) = (case next_action u of None \<Rightarrow> next_action x | Some a \<Rightarrow> Some a)"
  by (simp add: merge_def override_def)

lemma foldl_merge_validated:
  assumes "\<forall>u \<in> set us. validated u \<noteq> Some False" "validated x = Some True"
  shows "validated (foldl merge x us) = Some True"
  using assms
  by (induction us arbitrary: x) (simp_all add: validated_merge)

lemma foldl_merge_safe:
  assumes "\<forall>u \<in> set us. upd_ok s u"
    and "is_validated s \<longrightarrow> is_validated x"
    and "safe x \<or> (\<exists>u \<in> set us. next_action u \<noteq> None)"
  shows "safe (foldl merge x us)"
  using assms
proof (induction us arbitrary: x)
  case Nil
  then show ?case by simp
next
  case (Cons u us)
  have ok: "upd_ok s u" using Cons.prems(1) by simp
  then have v: "validated u \<noteq> Some False" by (simp add: upd_ok_def)
  have 1: "\<forall>u \<in> set us. upd_ok s u" using Cons.prems(1) by simp
  have 2: "is_validated s \<longrightarrow> is_validated (merge x u)"
    using Cons.prems(2) v by (simp add: is_validated_merge)
  have 3: "safe (merge x u) \<or> (\<exists>u \<in> set us. next_action u \<noteq> None)"
  proof (cases "next_action u")
    case (Some a)
    then have "next_action (merge x u) = next_action u" by (simp add: next_action_merge)
    with ok 2 have "safe (merge x u)" by (simp add: safe_def upd_ok_def)
    then show ?thesis by simp
  next
    case None
    then have na: "next_action (merge x u) = next_action x" by (simp add: next_action_merge)
    show ?thesis
    proof (cases "safe x")
      case True
      with na v have "safe (merge x u)" by (simp add: safe_def is_validated_merge)
      then show ?thesis by simp
    next
      case False
      with Cons.prems(3) None show ?thesis by auto
    qed
  qed
  from Cons.IH [OF 1 2 3] show ?case by simp
qed

lemma superstep_Inr:
  assumes "superstep g reply (s, A) = Inr (s', A')"
  obtains ws where "run_tasks (\<lambda>n. node_fn g n s (reply n)) A = Inr ws"
    "s' = foldl merge s (map snd ws)"
    "A' = filter (\<lambda>n. n \<in> set (concat (map (\<lambda>w. fired g (fst w) (merge s (snd w))) ws)))
            [Classify, Planner, Tool, Step]"
  using assms
  by (auto simp: superstep_def Let_def split: sum.splits if_splits)

lemma superstep_updates_ok:
  assumes "run_tasks (\<lambda>n. node_fn (build_graph mx) n s (reply n)) A = Inr ws"
  shows "\<forall>u \<in> set (map snd ws). upd_ok s u"
proof
  fix u assume "u \<in> set (map snd ws)"
  then obtain w where w: "w \<in> set ws" "u = snd w" by auto
  with run_tasks_Inr [OF assms] have "node_fn (build_graph mx) (fst w) s (reply (fst w)) = Inr u"
    by simp
  then show "upd_ok s u" by (rule node_fn_upd_ok)
qed

lemma superstep_validated:
  assumes "superstep (build_graph mx) reply (s, A) = Inr (s', A')" "validated s = Some True"
  shows "validated s' = Some True"
proof -
  from assms(1) obtain ws where
    ws: "run_tasks (\<lambda>n. node_fn (build_graph mx) n s (reply n)) A = Inr ws"
    and s': "s' = foldl merge s (map snd ws)"
    by (rule superstep_Inr)
  from superstep_updates_ok [OF ws] have "\<forall>u \<in> set (map snd ws). validated u \<noteq> Some False"
    by (simp add: upd_ok_def)
  then show ?thesis unfolding s' using assms(2) by (rule foldl_merge_validated)
qed

lemma superstep_tool_safe:
  assumes "superstep (build_graph mx) reply (s, A) = Inr (s', A')" "Tool \<in> set A'"
  shows "safe s'"
proof -
  from assms(1) obtain ws where
    ws: "run_tasks (\<lambda>n. node_fn (build_graph mx) n s (reply n)) A = Inr ws"
    and s': "s' = foldl merge s (map snd ws)"
    and A': "A' = filter (\<lambda>n. n \<in> set (concat (map (\<lambda>w. fired (build_graph mx) (fst w) (merge s (snd w))) ws)))
            [Classify, Planner, Tool, Step]"
    by (rule superstep_Inr)
  from assms(2) have "Tool \<in> set (concat (map (\<lambda>w. fired (build_graph mx) (fst w) (merge s (snd w))) ws))"
    unfolding A' set_filter by blast
  then obtain w where w: "w \<in> set ws"
    "Tool \<in> set (fired (build_graph mx) (fst w) (merge s (snd w)))"
    by auto
  from fired_Tool [OF w(2)] have "fst w = Planner" .
  with run_tasks_Inr [OF ws] w(1) have "planner_node s (reply Planner) = Inr (snd w)"
    by (auto simp: node_fn_build_graph)
  then have "next_action (snd w) \<noteq> None" by (rule planner_node_frame(10))
  with w(1) have 3: "safe s \<or> (\<exists>u \<in> set (map snd ws). next_action u \<noteq> None)" by auto
  have 2: "is_validated s \<longrightarrow> is_validated s" by simp
  show ?thesis unfolding s'
    using superstep_updates_ok [OF ws] 2 3 by (rule foldl_merge_safe)
qed

lemma trace_Suc_Inr:
  assumes "trace g llm s0 (Suc k) = Inr c'"
  obtains c where "trace g llm s0 k = Inr c" "superstep g (llm k) c = Inr c'"
  using assms by (auto split: sum.splits)

lemma trace_tool_safe:
  assumes "trace (build_graph mx) llm s0 k = Inr (s, A)" "Tool \<in> set A"
  shows "safe s"
proof (cases k)
  case 0
  with assms show ?thesis by (auto simp: build_graph_def)
next
  case (Suc j)
  with assms(1) have "trace (build_graph mx) llm s0 (Suc j) = Inr (s, A)" by simp
  then obtain c where c: "superstep (build_graph mx) (llm j) c = Inr (s, A)"
    by (rule trace_Suc_Inr)
  then have "superstep (build_graph mx) (llm j) (fst c, snd c) = Inr (s, A)" by simp
  then show ?thesis using assms(2) by (rule superstep_tool_safe)
qed

lemma trace_validated:
  assumes "trace (build_graph mx) llm s0 k = Inr (s, A)" "validated s = Some True"
    "trace (build_graph mx) llm s0 (k + j) = Inr (s', A')"
  shows "validated s' = Some True"
  using assms(3)
proof (induction j arbitrary: s' A')
  case 0
  with assms(1,2) show ?case by simp
next
  case (Suc j)
  from Suc.prems have "trace (build_graph mx) llm s0 (Suc (k + j)) = Inr (s', A')" by simp
  then obtain c where c: "trace (build_graph mx) llm s0 (k + j) = Inr c"
    "superstep (build_graph mx) (llm (k + j)) c = Inr (s', A')"
    by (rule trace_Suc_Inr)
  from c(1) have "validated (fst c) = Some True" using Suc.IH [of "fst c" "snd c"] by simp
  moreover from c(2) have "superstep (build_graph mx) (llm (k + j)) (fst c, snd c) = Inr (s', A')"
    by simp
  ultimately show ?case using superstep_validated by blast
qed

lemma tool_node_call_destructive:
  "tool_node_call s = Some ReplaceCard \<or> tool_node_call s = Some CancelCard \<Longrightarrow>
   is_destructive (next_action s)"
  by (cases "next_action s")
     (auto simp: tool_node_call_def is_destructive_def Let_def action_names_distinct split: if_splits)

text \<open>
  Claim C1. Whatever the model replied and whatever the state, when \<open>planner_node\<close> returns
  and \<^verbatim>\<open>validated\<close> is false in its state, the decision's \<^verbatim>\<open>next_action\<close> is neither
  \<^verbatim>\<open>replace\<close> nor \<^verbatim>\<open>cancel\<close>. Consequently, in every configuration a run of the graph
  reaches, from any input state and for any replies of the model, in which the tool
  node is about to run while \<^verbatim>\<open>validated\<close> is false, the tool node calls neither the
  replacement nor the cancellation and sets no \<^verbatim>\<open>result\<close>.
\<close>

theorem guard_blocks_unvalidated_destructive:
  "(planner_node state loaded = Inr out \<and> \<not> is_validated state \<longrightarrow>
      next_action out \<noteq> Some (PStr (str ''replace'')) \<and>
      next_action out \<noteq> Some (PStr (str ''cancel''))) \<and>
   (trace (build_graph max_steps) llm input k = Inr (s, active) \<and> Tool \<in> set active \<and>
    \<not> is_validated s \<longrightarrow>
      tool_node_call s \<noteq> Some ReplaceCard \<and> tool_node_call s \<noteq> Some CancelCard \<and>
      result (tool_node s) = None)"
proof (intro conjI impI)
  assume a: "planner_node state loaded = Inr out \<and> \<not> is_validated state"
  then have "\<not> is_destructive (next_action out)" using planner_node_guard by blast
  then show "next_action out \<noteq> Some (PStr (str ''replace''))"
    "next_action out \<noteq> Some (PStr (str ''cancel''))"
    by (simp_all add: is_destructive_def)
next
  assume a: "trace (build_graph max_steps) llm input k = Inr (s, active) \<and> Tool \<in> set active \<and>
    \<not> is_validated s"
  then have "safe s" using trace_tool_safe by blast
  with a have nd: "\<not> is_destructive (next_action s)" by (simp add: safe_def)
  then show "tool_node_call s \<noteq> Some ReplaceCard" "tool_node_call s \<noteq> Some CancelCard"
    using tool_node_call_destructive by blast+
  from nd show "result (tool_node s) = None" using tool_node_result by blast
qed

text \<open>
  Claim C9. No operation produces an update that sets \<^verbatim>\<open>validated\<close> to false: the
  classifier, the planner with its guard and the step counter do not write the key, and
  the tool node writes \<^verbatim>\<open>True\<close> or nothing. Merging such an update keeps a true flag,
  and so, along every run of the graph, once \<^verbatim>\<open>validated\<close> is true it is true in every
  later configuration.
\<close>

theorem validated_never_reset:
  "validated (classify_node state loaded) = None \<and>
   (planner_node state loaded = Inr out \<longrightarrow> validated out = None) \<and>
   validated (tool_node state) \<noteq> Some False \<and>
   validated (step_node state) = None \<and>
   (validated state = Some True \<and> validated u \<noteq> Some False \<longrightarrow>
      validated (merge state u) = Some True) \<and>
   (trace (build_graph max_steps) llm input k = Inr (s, active) \<and> validated s = Some True \<and>
    trace (build_graph max_steps) llm input (k + j) = Inr (s', active') \<longrightarrow>
      validated s' = Some True)"
proof (intro conjI impI)
  show "validated (classify_node state loaded) = None" by (rule classify_node_frame)
  show "validated (tool_node state) \<noteq> Some False" by (rule tool_node_frame)
  show "validated (step_node state) = None" by (rule step_node_frame)
next
  assume "planner_node state loaded = Inr out"
  then show "validated out = None" by (rule planner_node_frame)
next
  assume "validated state = Some True \<and> validated u \<noteq> Some False"
  then show "validated (merge state u) = Some True" by (simp add: validated_merge)
next
  assume "trace (build_graph max_steps) llm input k = Inr (s, active) \<and> validated s = Some True \<and>
    trace (build_graph max_steps) llm input (k + j) = Inr (s', active')"
  then show "validated s' = Some True" using trace_validated by blast
qed

section \<open>Runs of the graph\<close>

lemma key_names_distinct:
  "str ''next_action'' \<noteq> str ''assistant_message''" "str ''next_action'' \<noteq> str ''intent''"
  "str ''next_action'' \<noteq> str ''reason''" "str ''assistant_message'' \<noteq> str ''next_action''"
  "str ''intent'' \<noteq> str ''next_action''" "str ''reason'' \<noteq> str ''next_action''"
  "str ''intent'' \<noteq> str ''reason''" "str ''reason'' \<noteq> str ''intent''"
  by (simp_all add: str_def)

lemma planner_agent_validate:
  "planner_agent s (llm_validate i n) =
     no_update\<lparr>next_action := Some (PStr (str ''validate'')),
               assistant_message := Some (PStr (str '''')),
               intent := Some (case intent s of None \<Rightarrow> PStr (str ''unknown'') | Some v \<Rightarrow> v),
               plan_reason := Some (PStr (str ''''))\<rparr>"
  by (simp add: llm_validate_def planner_agent_dict key_names_distinct)

lemma planner_node_validate:
  "planner_node s (llm_validate i n) = Inr (planner_agent s (llm_validate i n))"
  by (simp add: planner_node_def Let_def planner_agent_validate not_destructive_validate)















lemma run_cancel_planner: "planner_node cancel_request (llm_cancel 1 Planner) =
    Inr (no_update\<lparr>next_action := Some (PStr (str ''validate'')),
           assistant_message := Some (PStr (str '''')),
           intent := Some (PStr (str ''unknown'')),
           plan_reason := Some (PStr (str '' | Guarded: validating before action''))\<rparr>)"
  by code_simp

lemma run_cancel_trace_2: "trace (build_graph 6) llm_cancel cancel_request 2 =
    Inr (\<lparr>user_input = Some (str ''please cancel my card ending 4321''), messages = None,
          intent = Some (PStr (str ''cancel'')),
          intent_reason = Some (PStr (str ''asked to cancel'')),
          validated = None, validation_reason = None, result = None,
          assistant_message = Some (PStr (str '''')),
          next_action = Some (PStr (str ''validate'')),
          plan_reason = Some (PStr (str '' | Guarded: validating before action'')),
          step_count = None\<rparr>, [Tool])"
  by code_simp

lemma run_validate_trace_3: "trace (build_graph 1) llm_validate hello 3 =
    Inr (\<lparr>user_input = Some (str ''hello''), messages = None,
          intent = Some (PStr (str ''unknown'')), intent_reason = Some (PStr (str '''')),
          validated = Some True, validation_reason = Some (str ''Mock validation passed.''),
          result = None, assistant_message = Some (PStr (str '''')),
          next_action = Some (PStr (str ''validate'')), plan_reason = Some (PStr (str '''')),
          step_count = None\<rparr>, [Planner, Step])"
  by code_simp

lemma run_validate_trace_4: "trace (build_graph 1) llm_validate hello 4 =
    Inr (\<lparr>user_input = Some (str ''hello''), messages = None,
          intent = Some (PStr (str ''unknown'')), intent_reason = Some (PStr (str '''')),
          validated = Some True, validation_reason = Some (str ''Mock validation passed.''),
          result = None, assistant_message = Some (PStr (str '''')),
          next_action = Some (PStr (str ''validate'')), plan_reason = Some (PStr (str '''')),
          step_count = Some 1\<rparr>, [Planner, Tool])"
  by code_simp



section \<open>Witnesses and the step budget\<close>

theorem guard_blocks_unvalidated_destructive_witness:
  "planner_node cancel_request (llm_cancel 1 Planner) =
     Inr (no_update\<lparr>next_action := Some (PStr (str ''validate'')),
           assistant_message := Some (PStr (str '''')),
           intent := Some (PStr (str ''unknown'')),
           plan_reason := Some (PStr (str '' | Guarded: validating before action''))\<rparr>) \<and>
   \<not> is_validated cancel_request \<and>
   (\<exists>s. trace (build_graph 6) llm_cancel cancel_request 2 = Inr (s, [Tool]) \<and>
      \<not> is_validated s \<and>
      next_action s = Some (PStr (str ''validate'')) \<and>
      tool_node_call s \<noteq> Some ReplaceCard \<and> tool_node_call s \<noteq> Some CancelCard \<and>
      result (tool_node s) = None)"
proof -
  let ?s = "\<lparr>user_input = Some (str ''please cancel my card ending 4321''), messages = None,
          intent = Some (PStr (str ''cancel'')),
          intent_reason = Some (PStr (str ''asked to cancel'')),
          validated = None, validation_reason = None, result = None,
          assistant_message = Some (PStr (str '''')),
          next_action = Some (PStr (str ''validate'')),
          plan_reason = Some (PStr (str '' | Guarded: validating before action'')),
          step_count = None\<rparr>"
  have v0: "\<not> is_validated cancel_request"
    by (simp add: is_validated_def cancel_request_def no_update_def)
  have v: "\<not> is_validated ?s" by (simp add: is_validated_def)
  have t: "Tool \<in> set [Tool]" by simp
  from guard_blocks_unvalidated_destructive
    [of cancel_request "llm_cancel 1 Planner" _ 6 llm_cancel cancel_request 2 ?s "[Tool]"]
    run_cancel_planner run_cancel_trace_2 v0 v t
  show ?thesis by simp
qed



theorem validated_never_reset_witness:
  "\<exists>s s' out. trace (build_graph 1) llm_validate hello 3 = Inr (s, [Planner, Step]) \<and>
      validated s = Some True \<and>
      planner_node s (llm_validate 3 Planner) = Inr out \<and>
      validated out = None \<and>
      validated (tool_node s) \<noteq> Some False \<and>
      validated (merge s (tool_node s)) = Some True \<and>
      trace (build_graph 1) llm_validate hello (3 + 1) = Inr (s', [Planner, Tool]) \<and>
      validated s' = Some True"
proof -
  let ?s = "\<lparr>user_input = Some (str ''hello''), messages = None,
          intent = Some (PStr (str ''unknown'')), intent_reason = Some (PStr (str '''')),
          validated = Some True, validation_reason = Some (str ''Mock validation passed.''),
          result = None, assistant_message = Some (PStr (str '''')),
          next_action = Some (PStr (str ''validate'')), plan_reason = Some (PStr (str '''')),
          step_count = None\<rparr>"
  let ?s' = "\<lparr>user_input = Some (str ''hello''), messages = None,
          intent = Some (PStr (str ''unknown'')), intent_reason = Some (PStr (str '''')),
          validated = Some True, validation_reason = Some (str ''Mock validation passed.''),
          result = None, assistant_message = Some (PStr (str '''')),
          next_action = Some (PStr (str ''validate'')), plan_reason = Some (PStr (str '''')),
          step_count = Some 1\<rparr>"
  let ?out = "planner_agent ?s (llm_validate 3 Planner)"
  have p: "planner_node ?s (llm_validate 3 Planner) = Inr ?out"
    by (rule planner_node_validate)
  have c: "validated ?s = Some True" by simp
  have tr4: "trace (build_graph 1) llm_validate hello (3 + 1) = Inr (?s', [Planner, Tool])"
    using run_validate_trace_4 by simp
  note th = validated_never_reset
    [where state = ?s and loaded = "llm_validate 3 Planner" and out = ?out
      and u = "tool_node ?s" and max_steps = 1 and llm = llm_validate and input = hello
      and k = 3 and s = ?s and active = "[Planner, Step]" and j = 1 and s' = ?s'
      and active' = "[Planner, Tool]"]
  from th p have 1: "validated ?out = None" by blast
  from th have 2: "validated (tool_node ?s) \<noteq> Some False" by blast
  from th c 2 have 3: "validated (merge ?s (tool_node ?s)) = Some True" by blast
  from th run_validate_trace_3 c tr4 have 4: "validated ?s' = Some True" by simp
  from run_validate_trace_3 c p 1 2 3 tr4 4 show ?thesis by blast
qed

theorem planner_keeps_intent_witness:
  "omits_intent (llm_validate 0 Planner) \<and>
   (\<exists>out. planner_node (no_update\<lparr>intent := Some (PStr (str ''cancel''))\<rparr>) (llm_validate 0 Planner) =
        Inr out \<and>
      intent (no_update\<lparr>intent := Some (PStr (str ''cancel''))\<rparr>) \<noteq> None \<and>
      intent (merge (no_update\<lparr>intent := Some (PStr (str ''cancel''))\<rparr>) out) =
        Some (PStr (str ''cancel'')) \<and>
      get_intent (merge (no_update\<lparr>intent := Some (PStr (str ''cancel''))\<rparr>) out) =
        PStr (str ''cancel''))"
proof -
  let ?st = "no_update\<lparr>intent := Some (PStr (str ''cancel''))\<rparr>"
  have o: "omits_intent (llm_validate 0 Planner)"
    by (simp add: omits_intent_def llm_validate_def key_names_distinct)
  have p: "planner_node ?st (llm_validate 0 Planner) = Inr (planner_agent ?st (llm_validate 0 Planner))"
    by (rule planner_node_validate)
  have i: "intent ?st = Some (PStr (str ''cancel''))" by simp
  then have g: "get_intent ?st = PStr (str ''cancel'')" by (simp add: get_intent_def)
  from planner_keeps_intent [OF o p] i g
  have "intent (merge ?st (planner_agent ?st (llm_validate 0 Planner))) = Some (PStr (str ''cancel''))"
    "get_intent (merge ?st (planner_agent ?st (llm_validate 0 Planner))) = PStr (str ''cancel'')"
    by simp_all
  with o p i show ?thesis by blast
qed



end
